theory Spec2Isabelle
  imports Main
begin

section \<open>Go strings, runes and the library functions the classifier calls\<close>

text \<open>
  A Go string is a sequence of bytes: \<open>string\<close> (a \<open>char list\<close>, each \<open>char\<close> one
  byte). \<open>len(errStr)\<close> is \<open>length\<close>, the number of bytes. A rune is a code point
  (Go's \<open>int32\<close>), here an \<open>int\<close>.
\<close>

type_synonym rune = int

definition byte :: "char \<Rightarrow> nat" where
  "byte c = of_char c"

definition RuneError :: rune where
  "RuneError = 0xFFFD"

text \<open>
  \<open>utf8.DecodeRuneInString\<close> on a non-empty string \<open>c # cs\<close>: the first rune and the
  number of bytes it takes. A byte that starts no well-formed UTF-8 sequence (the ranges
  of the first and second byte are those of the library's \<open>first\<close> and \<open>acceptRanges\<close>
  tables) is the rune \<open>RuneError\<close> of width 1.
\<close>

definition DecodeRuneInString :: "char \<Rightarrow> string \<Rightarrow> rune \<times> nat" where
  "DecodeRuneInString c cs =
     (let s0 = byte c in
      if s0 < 0x80 then (int s0, 1)
      else if s0 < 0xC2 \<or> 0xF4 < s0 then (RuneError, 1)
      else
        let sz = (if s0 < 0xE0 then 2 else if s0 < 0xF0 then 3 else (4::nat));
            lo = (if s0 = 0xE0 then 0xA0 else if s0 = 0xF0 then 0x90 else 0x80);
            hi = (if s0 = 0xED then 0x9F else if s0 = 0xF4 then 0x8F else 0xBF)
        in
          if length cs + 1 < sz then (RuneError, 1)
          else
            let s1 = byte (cs ! 0) in
            if s1 < lo \<or> hi < s1 then (RuneError, 1)
            else if sz \<le> 2 then (int ((s0 mod 32) * 64 + s1 mod 64), 2)
            else
              let s2 = byte (cs ! 1) in
              if s2 < 0x80 \<or> 0xBF < s2 then (RuneError, 1)
              else if sz \<le> 3 then
                (int ((s0 mod 16) * 4096 + (s1 mod 64) * 64 + s2 mod 64), 3)
              else
                let s3 = byte (cs ! 2) in
                if s3 < 0x80 \<or> 0xBF < s3 then (RuneError, 1)
                else
                  (int ((s0 mod 8) * 262144 + (s1 mod 64) * 4096 + (s2 mod 64) * 64
                        + s3 mod 64), 4))"

text \<open>The conversion \<open>[]rune(s)\<close>: the runes of \<open>s\<close>, decoded one after the other.\<close>

fun runes :: "string \<Rightarrow> rune list" where
  "runes [] = []"
| "runes (c # cs) =
     (case DecodeRuneInString c cs of (r, width) \<Rightarrow> r # runes (drop (width - 1) cs))"

text \<open>
  The conversion \<open>string(rs)\<close> of a rune slice: each rune in UTF-8; a rune that is no
  code point (negative, beyond 0x10FFFF, a surrogate) is written as \<open>RuneError\<close>.
\<close>

definition EncodeRune :: "rune \<Rightarrow> string" where
  "EncodeRune r =
     (let i = nat r in
      if 0 \<le> r \<and> r \<le> 0x7F then [char_of i]
      else if 0 \<le> r \<and> r \<le> 0x7FF then
        [char_of (0xC0 + i div 64), char_of (0x80 + i mod 64)]
      else if r < 0 \<or> 0x10FFFF < r \<or> (0xD800 \<le> r \<and> r \<le> 0xDFFF) then
        [char_of (0xEF::nat), char_of (0xBF::nat), char_of (0xBD::nat)]
      else if r \<le> 0xFFFF then
        [char_of (0xE0 + i div 4096), char_of (0x80 + (i div 64) mod 64),
         char_of (0x80 + i mod 64)]
      else
        [char_of (0xF0 + i div 262144), char_of (0x80 + (i div 4096) mod 64),
         char_of (0x80 + (i div 64) mod 64), char_of (0x80 + i mod 64)])"

definition string_of_runes :: "rune list \<Rightarrow> string" where
  "string_of_runes rs = concat (map EncodeRune rs)"

text \<open>
  A slice expression \<open>a[0:n]\<close> on a slice whose visible elements are \<open>rs\<close> and whose
  backing array goes on with \<open>spare\<close> (so \<open>len(a) = length rs\<close> and
  \<open>cap(a) = length rs + length spare\<close>). Go allows the upper index up to the
  capacity, not only up to the length; beyond the capacity the expression panics.
\<close>

datatype go_panic = SliceBoundsOutOfRange

definition slice_upto :: "rune list \<Rightarrow> rune list \<Rightarrow> nat \<Rightarrow> go_panic + rune list" where
  "slice_upto rs spare n =
     (if n \<le> length rs + length spare then Inr (take n (rs @ spare))
      else Inl SliceBoundsOutOfRange)"

text \<open>
  \<open>strconv.Atoi\<close> as it runs on the short strings it is given here (three runes, at most
  twelve bytes): an optional sign, then decimal digits only; \<open>None\<close> is the syntax error.
  \<open>atoi_digits\<close> is its loop \<open>n = n*10 + int(ch - '0')\<close>, the subtraction on a byte.
\<close>

fun atoi_digits :: "string \<Rightarrow> int \<Rightarrow> int option" where
  "atoi_digits [] n = Some n"
| "atoi_digits (ch # s) n =
     (let d = (byte ch + 256 - 48) mod 256 in
      if d > 9 then None else atoi_digits s (n * 10 + int d))"

definition Atoi :: "string \<Rightarrow> int option" where
  "Atoi s0 =
     (case s0 of
        [] \<Rightarrow> None
      | c # cs \<Rightarrow>
          (let s = (if c = CHR ''-'' \<or> c = CHR ''+'' then cs else s0) in
           if s = [] then None
           else (case atoi_digits s 0 of
                   None \<Rightarrow> None
                 | Some n \<Rightarrow> Some (if c = CHR ''-'' then - n else n))))"

text \<open>
  \<open>strings.ToLower\<close>: a string of ASCII bytes only is lowered byte by byte; any other
  string goes through \<open>strings.Map(unicode.ToLower, s)\<close>, whose Unicode case tables are
  not part of this repository: that mapping is the parameter \<open>mapLower\<close>.
\<close>

definition lower_byte :: "char \<Rightarrow> char" where
  "lower_byte c = (if 65 \<le> byte c \<and> byte c \<le> 90 then char_of (byte c + 32) else c)"

definition ToLower :: "(string \<Rightarrow> string) \<Rightarrow> string \<Rightarrow> string" where
  "ToLower mapLower s =
     (if list_all (\<lambda>c. byte c < 0x80) s then
        (if list_ex (\<lambda>c. 65 \<le> byte c \<and> byte c \<le> 90) s then map lower_byte s else s)
      else mapLower s)"

text \<open>\<open>strings.HasPrefix\<close> and \<open>strings.Contains\<close>, on bytes.\<close>

fun HasPrefix :: "string \<Rightarrow> string \<Rightarrow> bool" where
  "HasPrefix s [] = True"
| "HasPrefix [] (p # ps) = False"
| "HasPrefix (c # cs) (p # ps) = (c = p \<and> HasPrefix cs ps)"

fun Contains :: "string \<Rightarrow> string \<Rightarrow> bool" where
  "Contains [] sub = (sub = [])"
| "Contains (c # cs) sub = (HasPrefix (c # cs) sub \<or> Contains cs sub)"

section \<open>The error classifier\<close>

definition ErrTimeout :: string where
  "ErrTimeout = ''The connection to the mail server has timed out''"
definition ErrNoSuchHost :: string where
  "ErrNoSuchHost = ''Mail server does not exist''"
definition ErrServerUnavailable :: string where
  "ErrServerUnavailable = ''Mail server is unavailable''"
definition ErrBlocked :: string where
  "ErrBlocked = ''Blocked by mail server''"
definition ErrTryAgainLater :: string where
  "ErrTryAgainLater = ''Try again later''"
definition ErrFullInbox :: string where
  "ErrFullInbox = ''Recipient out of disk space''"
definition ErrTooManyRCPT :: string where
  "ErrTooManyRCPT = ''Too many recipients''"
definition ErrNoRelay :: string where
  "ErrNoRelay = ''Not an open relay''"
definition ErrMailboxBusy :: string where
  "ErrMailboxBusy = ''Mailbox busy''"
definition ErrExceededMessagingLimits :: string where
  "ErrExceededMessagingLimits = ''Messaging limits have been exceeded''"
definition ErrNotAllowed :: string where
  "ErrNotAllowed = ''Not Allowed''"
definition ErrNeedMAILBeforeRCPT :: string where
  "ErrNeedMAILBeforeRCPT = ''Need MAIL before RCPT''"
definition ErrRCPTHasMoved :: string where
  "ErrRCPTHasMoved = ''Recipient has moved''"
definition ErrMailboxNotFound :: string where
  "ErrMailboxNotFound = ''Mailbox not found''"

record LookupError =
  Message :: string
  Details :: string

definition newLookupError :: "string \<Rightarrow> string \<Rightarrow> LookupError" where
  "newLookupError message details = \<lparr>Message = message, Details = details\<rparr>"

text \<open>
  The argument of the classifier is a Go \<open>error\<close>. The classifier reads two things of
  it: its text \<open>err.Error()\<close> and whether \<open>errors.Is(err, io.EOF)\<close> holds.
\<close>

record go_error =
  Error :: string
  is_EOF :: bool

text \<open>\<open>insContains\<close>: the loop over the substrings returns at the first one found.\<close>

fun insContains :: "(string \<Rightarrow> string) \<Rightarrow> string \<Rightarrow> string list \<Rightarrow> bool" where
  "insContains mapLower str [] = False"
| "insContains mapLower str (subStr # subStrs) =
     (if Contains (ToLower mapLower str) (ToLower mapLower subStr) then True
      else insContains mapLower str subStrs)"

definition parseBasicErr :: "(string \<Rightarrow> string) \<Rightarrow> go_error \<Rightarrow> LookupError" where
  "parseBasicErr mapLower err =
     (let errStr = Error err in
      if is_EOF err then newLookupError ErrServerUnavailable errStr
      else if insContains mapLower errStr
                [''spamhaus'', ''proofpoint'', ''cloudmark'', ''banned'', ''blocked'', ''denied'']
        then newLookupError ErrBlocked errStr
      else if insContains mapLower errStr [''timeout''] then newLookupError ErrTimeout errStr
      else if insContains mapLower errStr [''no such host''] then
        newLookupError ErrNoSuchHost errStr
      else if insContains mapLower errStr [''unavailable'', ''connection reset''] then
        newLookupError ErrServerUnavailable errStr
      else newLookupError errStr errStr)"

text \<open>
  \<open>ParseSMTPError\<close>. The result is \<open>Inr None\<close> for Go's \<open>nil\<close>, \<open>Inr (Some e)\<close> for a
  \<open>LookupError\<close>, and \<open>Inl\<close> a panic. \<open>spare errStr\<close> is what the backing array of
  \<open>[]rune(errStr)\<close> holds beyond the runes of the string: Go leaves the capacity of a
  converted slice to the implementation, so it is a parameter.
\<close>

definition ParseSMTPError ::
  "(string \<Rightarrow> string) \<Rightarrow> (string \<Rightarrow> rune list) \<Rightarrow> go_error \<Rightarrow> go_panic + LookupError option"
where
  "ParseSMTPError mapLower spare err =
     (let errStr = Error err in
      if length errStr < 3 then Inr (Some (parseBasicErr mapLower err))
      else
        (case slice_upto (runes errStr) (spare errStr) 3 of
           Inl p \<Rightarrow> Inl p
         | Inr first3 \<Rightarrow>
            (case Atoi (string_of_runes first3) of
               None \<Rightarrow> Inr (Some (parseBasicErr mapLower err))
             | Some status \<Rightarrow>
                 if status > 400 then
                   if status < 500 then
                     if insContains mapLower errStr [''greylist'', ''greylisted''] then
                       Inr (Some (newLookupError ErrTryAgainLater errStr))
                     else if status = 421 then
                       Inr (Some (newLookupError ErrTryAgainLater errStr))
                     else if status = 450 then
                       Inr (Some (newLookupError ErrMailboxBusy errStr))
                     else if status = 451 then
                       Inr (Some (newLookupError ErrExceededMessagingLimits errStr))
                     else if status = 452 then
                       if insContains mapLower errStr
                            [''full'', ''space'', ''over quota'', ''insufficient''] then
                         Inr (Some (newLookupError ErrFullInbox errStr))
                       else Inr (Some (newLookupError ErrTooManyRCPT errStr))
                     else Inr (Some (parseBasicErr mapLower err))
                   else if insContains mapLower errStr
                        [''undeliverable'', ''does not exist'', ''may not exist'',
                         ''user unknown'', ''user not found'', ''invalid address'',
                         ''recipient invalid'', ''recipient rejected'', ''address rejected'',
                         ''no mailbox'', ''no mail-enabled''] then
                     Inr (Some (newLookupError ErrMailboxNotFound errStr))
                   else if status = 503 then
                     Inr (Some (newLookupError ErrNeedMAILBeforeRCPT errStr))
                   else if status = 550 then
                     if insContains mapLower errStr
                          [''spamhaus'', ''proofpoint'', ''cloudmark'', ''banned'',
                           ''blacklisted'', ''blocked'', ''block list'', ''denied''] then
                       Inr (Some (newLookupError ErrBlocked errStr))
                     else Inr (Some (newLookupError ErrMailboxNotFound errStr))
                   else if status = 551 then
                     Inr (Some (newLookupError ErrRCPTHasMoved errStr))
                   else if status = 552 then
                     Inr (Some (newLookupError ErrFullInbox errStr))
                   else if status = 553 then
                     Inr (Some (newLookupError ErrNoRelay errStr))
                   else if status = 554 then
                     if insContains mapLower errStr [''relay access denied''] then
                       Inr (Some (newLookupError ErrNoRelay errStr))
                     else Inr (Some (newLookupError ErrNotAllowed errStr))
                   else Inr (Some (parseBasicErr mapLower err))
                 else Inr None)))"

section \<open>Facts about runes, the encoder and the parser of the status\<close>

lemma mod_window:
  fixes s :: nat
  assumes "b \<le> s" and "s < b + n" and "n dvd b"
  shows "s mod n = s - b"
  using assms by (intro mod_nat_eqI) auto

lemma mod_facts:
  fixes s :: nat
  shows "194 \<le> s \<Longrightarrow> s < 224 \<Longrightarrow> 2 \<le> s mod 32"
    and "160 \<le> s \<Longrightarrow> s \<le> 191 \<Longrightarrow> 32 \<le> s mod 64"
    and "225 \<le> s \<Longrightarrow> s < 240 \<Longrightarrow> 1 \<le> s mod 16"
    and "144 \<le> s \<Longrightarrow> s \<le> 191 \<Longrightarrow> 16 \<le> s mod 64"
    and "241 \<le> s \<Longrightarrow> s \<le> 244 \<Longrightarrow> 1 \<le> s mod 8"
  using mod_window[of 192 s 32] mod_window[of 128 s 64] mod_window[of 224 s 16]
    mod_window[of 240 s 8]
  by simp_all

lemma DecodeRuneInString_ascii:
  "byte c < 0x80 \<Longrightarrow> DecodeRuneInString c cs = (int (byte c), 1)"
  by (simp add: DecodeRuneInString_def)

lemma DecodeRuneInString_high:
  assumes "DecodeRuneInString c cs = (r, w)" and "0x80 \<le> byte c"
  shows "0x80 \<le> r"
proof -
  define s0 where "s0 = byte c"
  define s1 where "s1 = byte (cs ! 0)"
  define s2 where "s2 = byte (cs ! 1)"
  define s3 where "s3 = byte (cs ! 2)"
  have two: "194 \<le> s0 \<Longrightarrow> s0 < 224 \<Longrightarrow> 128 \<le> int (s0 mod 32) * 64 + int (s1 mod 64)"
    using mod_facts(1)[of s0] by linarith
  have three: "224 \<le> s0 \<Longrightarrow> s0 < 240 \<Longrightarrow> (s0 = 224 \<longrightarrow> 160 \<le> s1) \<Longrightarrow> s1 \<le> 191
      \<Longrightarrow> 128 \<le> int (s0 mod 16) * 4096 + int (s1 mod 64) * 64 + int (s2 mod 64)"
    using mod_facts(2)[of s1] mod_facts(3)[of s0] by (cases "s0 = 224") linarith+
  have four: "240 \<le> s0 \<Longrightarrow> s0 \<le> 244 \<Longrightarrow> (s0 = 240 \<longrightarrow> 144 \<le> s1) \<Longrightarrow> s1 \<le> 191
      \<Longrightarrow> 128 \<le> int (s0 mod 8) * 262144 + int (s1 mod 64) * 4096 + int (s2 mod 64) * 64
             + int (s3 mod 64)"
    using mod_facts(4)[of s1] mod_facts(5)[of s0] by (cases "s0 = 240") linarith+
  have s0: "128 \<le> s0" using assms(2) by (simp add: s0_def)
  note d = assms(1)[unfolded DecodeRuneInString_def Let_def RuneError_def, folded s0_def s1_def s2_def s3_def]
  consider (bad) "s0 < 194 \<or> 244 < s0" | (b2) "194 \<le> s0" "s0 < 224"
    | (b3) "224 \<le> s0" "s0 < 240" | (b4) "240 \<le> s0" "s0 \<le> 244"
    by linarith
  then show ?thesis
  proof cases
    case bad
    with d s0 show ?thesis by (auto split: if_splits)
  next
    case b2
    with d s0 two show ?thesis by (simp split: if_splits)
  next
    case b3
    with d s0 three show ?thesis by (simp split: if_splits)
  next
    case b4
    with d s0 four show ?thesis by (simp split: if_splits)
  qed
qed

lemma length_runes_le: "length (runes s) \<le> length s"
proof (induction s rule: runes.induct)
  case 1
  then show ?case by simp
next
  case (2 c cs)
  obtain r w where d: "DecodeRuneInString c cs = (r, w)" by (cases "DecodeRuneInString c cs")
  from 2[OF d[symmetric]] have "length (runes (drop (w - 1) cs)) \<le> length cs" by simp
  with d show ?case by simp
qed

lemma runes_short_has_high:
  "length (runes s) < length s \<Longrightarrow> \<exists>r\<in>set (runes s). 0x80 \<le> r"
proof (induction s rule: runes.induct)
  case 1
  then show ?case by simp
next
  case (2 c cs)
  obtain r w where d: "DecodeRuneInString c cs = (r, w)" by (cases "DecodeRuneInString c cs")
  show ?case
  proof (cases "byte c < 0x80")
    case True
    with d have rw: "r = int (byte c)" "w = 1" by (simp_all add: DecodeRuneInString_ascii)
    with d "2.prems" have "length (runes cs) < length cs" by simp
    with "2.IH"[OF d[symmetric]] rw have "\<exists>r\<in>set (runes cs). 0x80 \<le> r" by simp
    with d rw show ?thesis by simp
  next
    case False
    with DecodeRuneInString_high[OF d] have "0x80 \<le> r" by simp
    with d show ?thesis by simp
  qed
qed

lemma byte_char_of: "byte (char_of (n::nat)) = n mod 256"
  by (simp add: byte_def)

lemma byte_lt_256: "byte c < 256"
  by (simp add: byte_def)

lemma EncodeRune_high:
  assumes "0x80 \<le> r"
  shows "\<exists>c\<in>set (EncodeRune r). 0x80 \<le> byte c"
proof -
  have cont: "byte (char_of (0x80 + k mod 64)) = 0x80 + k mod 64" for k :: nat
  proof -
    have "k mod 64 < 64" by simp
    then have "0x80 + k mod 64 < 256" by linarith
    then show ?thesis by (simp add: byte_char_of)
  qed
  have "byte (last (EncodeRune r)) = 0xBD \<or> (\<exists>k. byte (last (EncodeRune r)) = 0x80 + k mod 64)"
    using assms cont by (auto simp: EncodeRune_def Let_def byte_char_of)
  then have "0x80 \<le> byte (last (EncodeRune r))" by auto
  moreover have "EncodeRune r \<noteq> []" by (simp add: EncodeRune_def Let_def)
  ultimately show ?thesis using last_in_set by blast
qed

lemma atoi_digits_ascii: "atoi_digits s a = Some n \<Longrightarrow> \<forall>c\<in>set s. byte c < 0x80"
proof (induction s a rule: atoi_digits.induct)
  case (1 n)
  then show ?case by simp
next
  case (2 ch s a)
  let ?d = "(byte ch + 256 - 48) mod 256"
  from "2.prems" have d: "\<not> ?d > 9" and rest: "atoi_digits s (a * 10 + int ?d) = Some n"
    by (auto simp: Let_def split: if_splits)
  have "byte ch < 0x80"
  proof (rule ccontr)
    assume "\<not> byte ch < 0x80"
    then have "128 \<le> byte ch" by simp
    with byte_lt_256[of ch] have "?d = byte ch - 48"
      using mod_window[of 256 "byte ch + 256 - 48" 256] by simp
    with d \<open>128 \<le> byte ch\<close> show False by simp
  qed
  with "2.IH"[OF refl _ rest] d show ?case by simp
qed

lemma Atoi_ascii: "Atoi s = Some n \<Longrightarrow> \<forall>c\<in>set s. byte c < 0x80"
proof (cases s)
  case Nil
  assume "Atoi s = Some n"
  with Nil show ?thesis by (simp add: Atoi_def)
next
  case (Cons c cs)
  assume a: "Atoi s = Some n"
  show ?thesis
  proof (cases "c = CHR ''-'' \<or> c = CHR ''+''")
    case True
    with a Cons obtain m where "atoi_digits cs 0 = Some m"
      by (auto simp: Atoi_def Let_def split: if_splits option.splits)
    from atoi_digits_ascii[OF this] True Cons show ?thesis by (auto simp: byte_def)
  next
    case False
    with a Cons obtain m where "atoi_digits s 0 = Some m"
      by (auto simp: Atoi_def Let_def split: if_splits option.splits)
    from atoi_digits_ascii[OF this] show ?thesis .
  qed
qed

lemma Atoi_high_rune:
  assumes "r \<in> set rs" and "0x80 \<le> r"
  shows "Atoi (string_of_runes rs) = None"
proof (rule ccontr)
  assume "Atoi (string_of_runes rs) \<noteq> None"
  then obtain n where "Atoi (string_of_runes rs) = Some n" by auto
  from Atoi_ascii[OF this] have all: "\<forall>c\<in>set (string_of_runes rs). byte c < 0x80" .
  from EncodeRune_high[OF assms(2)] obtain c where c: "c \<in> set (EncodeRune r)" "0x80 \<le> byte c"
    by auto
  with assms(1) have "c \<in> set (string_of_runes rs)" by (auto simp: string_of_runes_def)
  with all c show False by auto
qed

lemma slice_upto_3: "3 \<le> length rs \<Longrightarrow> slice_upto rs sp 3 = Inr (take 3 rs)"
  by (simp add: slice_upto_def)

lemma Atoi_few_runes:
  assumes "3 \<le> length s" and "length (runes s) < 3"
  shows "Atoi (string_of_runes (take 3 (runes s @ sp))) = None"
proof -
  from assms have "length (runes s) < length s" by simp
  from runes_short_has_high[OF this] obtain r where r: "r \<in> set (runes s)" "0x80 \<le> r" by auto
  from assms(2) have "take 3 (runes s @ sp) = runes s @ take (3 - length (runes s)) sp" by simp
  with r have "r \<in> set (take 3 (runes s @ sp))" by simp
  from Atoi_high_rune[OF this r(2)] show ?thesis .
qed

lemma ParseSMTPError_short:
  "length (Error e) < 3 \<Longrightarrow> ParseSMTPError lw sp e = Inr (Some (parseBasicErr lw e))"
  by (simp add: ParseSMTPError_def)

lemma ParseSMTPError_few_runes:
  assumes "3 \<le> length (Error e)" and "length (runes (Error e)) < 3"
    and "3 \<le> length (runes (Error e)) + length (sp (Error e))"
  shows "ParseSMTPError lw sp e = Inr (Some (parseBasicErr lw e))"
  using assms Atoi_few_runes[OF assms(1,2), of "sp (Error e)"]
  by (simp add: ParseSMTPError_def slice_upto_def)

lemma ParseSMTPError_panic:
  assumes "3 \<le> length (Error e)" and "length (runes (Error e)) + length (sp (Error e)) < 3"
  shows "ParseSMTPError lw sp e = Inl SliceBoundsOutOfRange"
  using assms by (simp add: ParseSMTPError_def slice_upto_def)

lemma ParseSMTPError_unparsed:
  assumes "3 \<le> length (runes (Error e))"
    and "Atoi (string_of_runes (take 3 (runes (Error e)))) = None"
  shows "ParseSMTPError lw sp e = Inr (Some (parseBasicErr lw e))"
proof -
  from assms(1) length_runes_le[of "Error e"] have "3 \<le> length (Error e)" by linarith
  with assms show ?thesis by (simp add: ParseSMTPError_def slice_upto_3)
qed

section \<open>The branches of the classifier\<close>

lemma length_ge3: "3 \<le> length (runes s) \<Longrightarrow> \<not> length s < 3"
  using length_runes_le[of s] by linarith

lemma ParseSMTPError_low:
  assumes "3 \<le> length (runes (Error e))"
    and "Atoi (string_of_runes (take 3 (runes (Error e)))) = Some status"
    and "status \<le> 400"
  shows "ParseSMTPError lw sp e = Inr None"
  using assms length_ge3[OF assms(1)] by (simp add: ParseSMTPError_def slice_upto_3)

lemma ParseSMTPError_4xx_eq:
  assumes "3 \<le> length (runes (Error e))"
    and "Atoi (string_of_runes (take 3 (runes (Error e)))) = Some status"
    and "400 < status" and "status < 500"
  shows "ParseSMTPError lw sp e = Inr (Some
           (if insContains lw (Error e) [''greylist'', ''greylisted'']
              then newLookupError ErrTryAgainLater (Error e)
            else if status = 421 then newLookupError ErrTryAgainLater (Error e)
            else if status = 450 then newLookupError ErrMailboxBusy (Error e)
            else if status = 451 then newLookupError ErrExceededMessagingLimits (Error e)
            else if status = 452 then
              (if insContains lw (Error e) [''full'', ''space'', ''over quota'', ''insufficient'']
                 then newLookupError ErrFullInbox (Error e)
               else newLookupError ErrTooManyRCPT (Error e))
            else parseBasicErr lw e))"
  using assms length_ge3[OF assms(1)]
  by (simp add: ParseSMTPError_def slice_upto_3 del: insContains.simps)

lemma ParseSMTPError_5xx_eq:
  assumes "3 \<le> length (runes (Error e))"
    and "Atoi (string_of_runes (take 3 (runes (Error e)))) = Some status"
    and "500 \<le> status"
  shows "ParseSMTPError lw sp e = Inr (Some
           (if insContains lw (Error e)
                 [''undeliverable'', ''does not exist'', ''may not exist'', ''user unknown'',
                  ''user not found'', ''invalid address'', ''recipient invalid'',
                  ''recipient rejected'', ''address rejected'', ''no mailbox'',
                  ''no mail-enabled'']
              then newLookupError ErrMailboxNotFound (Error e)
            else if status = 503 then newLookupError ErrNeedMAILBeforeRCPT (Error e)
            else if status = 550 then
              (if insContains lw (Error e)
                    [''spamhaus'', ''proofpoint'', ''cloudmark'', ''banned'', ''blacklisted'',
                     ''blocked'', ''block list'', ''denied'']
                 then newLookupError ErrBlocked (Error e)
               else newLookupError ErrMailboxNotFound (Error e))
            else if status = 551 then newLookupError ErrRCPTHasMoved (Error e)
            else if status = 552 then newLookupError ErrFullInbox (Error e)
            else if status = 553 then newLookupError ErrNoRelay (Error e)
            else if status = 554 then
              (if insContains lw (Error e) [''relay access denied'']
                 then newLookupError ErrNoRelay (Error e)
               else newLookupError ErrNotAllowed (Error e))
            else parseBasicErr lw e))"
  using assms length_ge3[OF assms(1)]
  by (simp add: ParseSMTPError_def slice_upto_3 del: insContains.simps)

lemma ParseSMTPError_high_not_nil:
  assumes "3 \<le> length (runes (Error e))"
    and "Atoi (string_of_runes (take 3 (runes (Error e)))) = Some status"
    and "400 < status"
  shows "\<exists>le. ParseSMTPError lw sp e = Inr (Some le)"
proof (cases "status < 500")
  case True
  from ParseSMTPError_4xx_eq[OF assms True] show ?thesis by blast
next
  case False
  then have "500 \<le> status" by simp
  from ParseSMTPError_5xx_eq[OF assms(1,2) this] show ?thesis by blast
qed

lemma parseBasicErr_Details: "Details (parseBasicErr lw e) = Error e"
  by (simp add: parseBasicErr_def newLookupError_def Let_def del: insContains.simps)

lemma parseBasicErr_default:
  assumes "\<not> is_EOF e"
    and "\<not> insContains lw (Error e)
            [''spamhaus'', ''proofpoint'', ''cloudmark'', ''banned'', ''blocked'', ''denied'']"
    and "\<not> insContains lw (Error e) [''timeout'']"
    and "\<not> insContains lw (Error e) [''no such host'']"
    and "\<not> insContains lw (Error e) [''unavailable'', ''connection reset'']"
  shows "parseBasicErr lw e = \<lparr>Message = Error e, Details = Error e\<rparr>"
  using assms by (simp add: parseBasicErr_def newLookupError_def Let_def del: insContains.simps)

lemma ParseSMTPError_cases:
  obtains (short) "length (Error e) < 3" "ParseSMTPError lw sp e = Inr (Some (parseBasicErr lw e))"
  | (panic) "3 \<le> length (Error e)" "length (runes (Error e)) < 3"
      "length (runes (Error e)) + length (sp (Error e)) < 3"
      "ParseSMTPError lw sp e = Inl SliceBoundsOutOfRange"
  | (few) "3 \<le> length (Error e)" "length (runes (Error e)) < 3"
      "3 \<le> length (runes (Error e)) + length (sp (Error e))"
      "ParseSMTPError lw sp e = Inr (Some (parseBasicErr lw e))"
  | (unparsed) "3 \<le> length (runes (Error e))"
      "Atoi (string_of_runes (take 3 (runes (Error e)))) = None"
      "ParseSMTPError lw sp e = Inr (Some (parseBasicErr lw e))"
  | (low) status where "3 \<le> length (runes (Error e))"
      "Atoi (string_of_runes (take 3 (runes (Error e)))) = Some status" "status \<le> 400"
      "ParseSMTPError lw sp e = Inr None"
  | (high) status where "3 \<le> length (runes (Error e))"
      "Atoi (string_of_runes (take 3 (runes (Error e)))) = Some status" "400 < status"
proof (cases "length (Error e) < 3")
  case True
  with short ParseSMTPError_short show ?thesis by blast
next
  case long: False
  show ?thesis
  proof (cases "3 \<le> length (runes (Error e))")
    case False
    show ?thesis
    proof (cases "3 \<le> length (runes (Error e)) + length (sp (Error e))")
      case True
      with few long False ParseSMTPError_few_runes[of e sp lw] show ?thesis by simp
    next
      case nocap: False
      with panic long False ParseSMTPError_panic[of e sp lw] show ?thesis by simp
    qed
  next
    case True
    show ?thesis
    proof (cases "Atoi (string_of_runes (take 3 (runes (Error e))))")
      case None
      with unparsed True ParseSMTPError_unparsed[OF True None] show ?thesis by blast
    next
      case (Some status)
      show ?thesis
      proof (cases "status \<le> 400")
        case le: True
        from low[OF True Some le ParseSMTPError_low[OF True Some le]] show ?thesis .
      next
        case False
        then have "400 < status" by simp
        from high[OF True Some this] show ?thesis .
      qed
    qed
  qed
qed

section \<open>The numeric status rules\<close>

text \<open>
  Claim C1, as the code has it: when the first three characters of the text parse as an
  integer status, the result is \<open>nil\<close> exactly when the status is at most 400 (the test
  is \<open>status > 400\<close>, so 400 itself is \<open>nil\<close>); for a status above 400 and below 500 the
  result is a \<open>LookupError\<close>: \<open>ErrTryAgainLater\<close> when the text holds "greylist", else by
  code 421, 450, 451, 452 (\<open>ErrFullInbox\<close> on "full", "space", "over quota",
  "insufficient", else \<open>ErrTooManyRCPT\<close>), and \<open>parseBasicErr\<close> for every other code.
\<close>

theorem ParseSMTPError_4xx_band:
  assumes "3 \<le> length (runes (Error e))"
    and "Atoi (string_of_runes (take 3 (runes (Error e)))) = Some status"
  shows "(ParseSMTPError lw sp e = Inr None \<longleftrightarrow> status \<le> 400) \<and>
         (400 < status \<and> status < 500 \<longrightarrow>
            ParseSMTPError lw sp e = Inr (Some
              (if insContains lw (Error e) [''greylist'', ''greylisted'']
                 then newLookupError ErrTryAgainLater (Error e)
               else if status = 421 then newLookupError ErrTryAgainLater (Error e)
               else if status = 450 then newLookupError ErrMailboxBusy (Error e)
               else if status = 451 then newLookupError ErrExceededMessagingLimits (Error e)
               else if status = 452 then
                 (if insContains lw (Error e)
                       [''full'', ''space'', ''over quota'', ''insufficient'']
                    then newLookupError ErrFullInbox (Error e)
                  else newLookupError ErrTooManyRCPT (Error e))
               else parseBasicErr lw e)))"
proof (intro conjI impI)
  show "ParseSMTPError lw sp e = Inr None \<longleftrightarrow> status \<le> 400"
  proof (cases "status \<le> 400")
    case True
    with ParseSMTPError_low[OF assms True] show ?thesis by simp
  next
    case False
    then have "400 < status" by simp
    from ParseSMTPError_high_not_nil[OF assms this, of lw sp] False show ?thesis by auto
  qed
next
  assume "400 < status \<and> status < 500"
  then have "400 < status" "status < 500" by simp_all
  from ParseSMTPError_4xx_eq[OF assms this]
  show "ParseSMTPError lw sp e = Inr (Some
              (if insContains lw (Error e) [''greylist'', ''greylisted'']
                 then newLookupError ErrTryAgainLater (Error e)
               else if status = 421 then newLookupError ErrTryAgainLater (Error e)
               else if status = 450 then newLookupError ErrMailboxBusy (Error e)
               else if status = 451 then newLookupError ErrExceededMessagingLimits (Error e)
               else if status = 452 then
                 (if insContains lw (Error e)
                       [''full'', ''space'', ''over quota'', ''insufficient'']
                    then newLookupError ErrFullInbox (Error e)
                  else newLookupError ErrTooManyRCPT (Error e))
               else parseBasicErr lw e))" .
qed

theorem ParseSMTPError_4xx_band_witness:
  "3 \<le> length (runes ''452 full Inbox'') \<and>
   Atoi (string_of_runes (take 3 (runes ''452 full Inbox''))) = Some 452 \<and>
   ParseSMTPError (\<lambda>s. s) (\<lambda>s. []) \<lparr>Error = ''452 full Inbox'', is_EOF = False\<rparr>
     = Inr (Some (newLookupError ErrFullInbox ''452 full Inbox''))"
proof -
  let ?e = "\<lparr>Error = ''452 full Inbox'', is_EOF = False\<rparr>"
  have h1: "3 \<le> length (runes (Error ?e))" by code_simp
  have h2: "Atoi (string_of_runes (take 3 (runes (Error ?e)))) = Some 452" by code_simp
  have g: "\<not> insContains (\<lambda>s. s) ''452 full Inbox'' [''greylist'', ''greylisted'']"
    by code_simp
  have f: "insContains (\<lambda>s. s) ''452 full Inbox''
             [''full'', ''space'', ''over quota'', ''insufficient'']"
    by code_simp
  from ParseSMTPError_4xx_band[OF h1 h2, of "\<lambda>s. s" "\<lambda>s. []"] g f
  have "ParseSMTPError (\<lambda>s. s) (\<lambda>s. []) ?e
          = Inr (Some (newLookupError ErrFullInbox ''452 full Inbox''))"
    by (simp del: insContains.simps)
  with h1 h2 show ?thesis by simp
qed

text \<open>
  The claim C1 as stated ("status exactly 400 is never mapped to nil") fails: the text
  "400" has status 400 and the result is \<open>nil\<close>.
\<close>

theorem ParseSMTPError_400_is_nil:
  "Atoi (string_of_runes (take 3 (runes ''400''))) = Some 400 \<and>
   ParseSMTPError (\<lambda>s. s) (\<lambda>s. []) \<lparr>Error = ''400'', is_EOF = False\<rparr> = Inr None"
  by code_simp

end
